theory Spec2Isabelle
  imports Complex_Main "HOL-Library.Word" "HOL-Library.Signed_Division"
begin

unbundle bit_operations_syntax

section \<open>Go values\<close>

text \<open>
  The package is modelled for a 64-bit platform: Go's \<open>int\<close> and \<open>int64\<close> are 64-bit
  words read as two's complement (\<open>sint\<close>), \<open>uint64\<close> is a 64-bit word read
  unsigned (\<open>uint\<close>, \<open>unat\<close>); \<open>+\<close>, \<open>-\<close> and \<open>*\<close> wrap around as in Go.
  A value of \<open>big.Int\<close> is an unbounded \<open>int\<close>.  A \<open>[]byte\<close> of ASCII characters is a
  \<open>string\<close>.
\<close>

type_synonym int64 = "64 word"
type_synonym uint64 = "64 word"
type_synonym byte = "8 word"

text \<open>
  A run-time panic ends the call; it is a value of the model.  The three panics that the
  package can reach are the one \<open>crypto/rand.Int\<close> raises for an argument \<open>max <= 0\<close>,
  an index out of range, and an integer division by zero.
\<close>

datatype panic = RandIntArgNotPositive | IndexOutOfRange | IntegerDivideByZero

type_synonym 'a result = "panic + 'a"

definition bind_r :: "'a result \<Rightarrow> ('a \<Rightarrow> 'b result) \<Rightarrow> 'b result" where
  "bind_r r f = (case r of Inl p \<Rightarrow> Inl p | Inr v \<Rightarrow> f v)"

text \<open>Go's \<open>%\<close> and \<open>/\<close> on signed integers truncate towards zero and panic on a zero divisor.\<close>

definition rem64 :: "int64 \<Rightarrow> int64 \<Rightarrow> int64" where
  "rem64 x y = word_of_int (sint x smod sint y)"


definition go_rem :: "int64 \<Rightarrow> int64 \<Rightarrow> int64 result" where
  "go_rem x y = (if y = 0 then Inl IntegerDivideByZero else Inr (rem64 x y))"

text \<open>Indexing a slice: Go panics unless \<open>0 <= i < len(xs)\<close>.\<close>

definition go_index :: "'a list \<Rightarrow> int64 \<Rightarrow> 'a result" where
  "go_index xs i =
     (if 0 \<le> sint i \<and> nat (sint i) < length xs then Inr (xs ! nat (sint i))
      else Inl IndexOutOfRange)"

section \<open>The environment: secure source and wall clock\<close>

text \<open>
  The package reads two things from outside: the secure source \<open>crypto/rand\<close> and the
  wall clock.  Each call's answer is an input of the model.

  \<open>rand.Read(b[:])\<close> on an 8-byte array either returns an error (\<open>None\<close>) or fills the
  array (\<open>Some\<close> of the 8 bytes).  \<open>rand.Int(rand.Reader, max)\<close> panics when
  \<open>max <= 0\<close>; otherwise it returns an error (\<open>None\<close>) or some integer of \<open>[0, max)\<close>.
  The environment supplies an arbitrary natural number \<open>r\<close> and the model returns
  \<open>r mod max\<close>: every value of \<open>[0, max)\<close>, and no other value, can be returned.
\<close>

datatype array8 = Array8 byte byte byte byte byte byte byte byte

fun BigEndian_Uint64 :: "array8 \<Rightarrow> uint64" where
  "BigEndian_Uint64 (Array8 b0 b1 b2 b3 b4 b5 b6 b7) =
     ucast b7 OR push_bit 8 (ucast b6) OR push_bit 16 (ucast b5) OR push_bit 24 (ucast b4) OR
     push_bit 32 (ucast b3) OR push_bit 40 (ucast b2) OR push_bit 48 (ucast b1) OR
     push_bit 56 (ucast b0)"

fun LittleEndian_Uint64 :: "array8 \<Rightarrow> uint64" where
  "LittleEndian_Uint64 (Array8 b0 b1 b2 b3 b4 b5 b6 b7) =
     ucast b0 OR push_bit 8 (ucast b1) OR push_bit 16 (ucast b2) OR push_bit 24 (ucast b3) OR
     push_bit 32 (ucast b4) OR push_bit 40 (ucast b5) OR push_bit 48 (ucast b6) OR
     push_bit 56 (ucast b7)"

definition rand_Int :: "nat option \<Rightarrow> int \<Rightarrow> int option result" where
  "rand_Int answer mx =
     (if mx \<le> 0 then Inl RandIntArgNotPositive
      else Inr (map_option (\<lambda>r. int r mod mx) answer))"

text \<open>
  What one call of \<open>defaultRand.Int63()\<close> reads: the answer of its \<open>rand.Read\<close> and the
  value of \<open>time.Now().UnixNano()\<close>.  The mutex is not modelled: a call is atomic here.
\<close>

record fallback_env =
  read_answer :: "array8 option"
  unix_nano :: int64

text \<open>
  What one random draw reads: the answer of its \<open>rand.Int\<close> and, for the fallback taken
  on an error, the environment of \<open>Int63\<close>.
\<close>

record draw_env =
  int_answer :: "nat option"
  fallback :: fallback_env

section \<open>lockedRandSource.Int63\<close>

definition Int63 :: "fallback_env \<Rightarrow> int64" where
  "Int63 e =
     (case read_answer e of
        None \<Rightarrow> unix_nano e
      | Some b \<Rightarrow> BigEndian_Uint64 b AND (push_bit 63 1 - 1))"

text \<open>
  The draw with fallback that \<open>Bytes\<close> (lines 81 to 84) and \<open>Float64\<close> (lines 140 to 143
  and 148 to 151) share:

  \<^verbatim>\<open>n, err := rand.Int(rand.Reader, max); if err != nil { n = big.NewInt(defaultRand.Int63() % m) }\<close>

  The result is the \<open>big.Int\<close> \<open>n\<close>; \<open>mx\<close> is the \<open>big.Int\<close> given to \<open>rand.Int\<close> and \<open>m\<close>
  the \<open>int64\<close> modulus of the fallback.
\<close>

definition rand_or_fallback :: "draw_env \<Rightarrow> int \<Rightarrow> int64 \<Rightarrow> int result" where
  "rand_or_fallback e mx m =
     bind_r (rand_Int (int_answer e) mx) (\<lambda>r.
       case r of
         Some n \<Rightarrow> Inr n
       | None \<Rightarrow> bind_r (go_rem (Int63 (fallback e)) m) (\<lambda>v. Inr (sint v)))"

section \<open>Bytes and String\<close>

definition R_NUM :: int64 where "R_NUM = 1"
definition R_UPPER :: int64 where "R_UPPER = 2"
definition R_LOWER :: int64 where "R_LOWER = 4"
definition R_All :: int64 where "R_All = 7"

definition numChars :: string where
  "numChars = ''0123456789''"

definition upperChars :: string where
  "upperChars = ''ABCDEFGHIJKLMNOPQRSTUVWXYZ''"

definition lowerChars :: string where
  "lowerChars = ''abcdefghijklmnopqrstuvwxyz''"

definition allChars :: string where
  "allChars = ''0123456789ABCDEFGHIJKLMNOPQRSTUVWXYZabcdefghijklmnopqrstuvwxyz''"

text \<open>The table \<open>charSets\<close>; a \<open>nil\<close> entry is \<open>None\<close>.\<close>

definition charSets :: "string option list" where
  "charSets =
     [None, Some numChars, Some upperChars, None, Some lowerChars, None, None, Some allChars]"

text \<open>Lines 54 to 56: a selector outside 1..7 becomes \<open>R_All\<close>.\<close>

definition Bytes_kind :: "int64 \<Rightarrow> int64" where
  "Bytes_kind kind = (if 7 <s kind \<or> kind <s 1 then R_All else kind)"

text \<open>Lines 58 to 61: the length, 6 unless a positive first variadic argument is given.\<close>

definition Bytes_length :: "int64 list \<Rightarrow> int64" where
  "Bytes_length bytesLen =
     (if 0 < length bytesLen \<and> 0 <s hd bytesLen then hd bytesLen else 6)"

text \<open>
  Lines 63 to 77: the character set of a selector (after line 56), from the table or,
  for a \<open>nil\<close> entry, appended from the base sets whose bits are set.
\<close>

definition Bytes_chars :: "int64 \<Rightarrow> string result" where
  "Bytes_chars kind =
     bind_r (go_index charSets kind) (\<lambda>chars.
       case chars of
         Some cs \<Rightarrow> Inr cs
       | None \<Rightarrow>
           Inr ((if kind AND R_NUM \<noteq> 0 then numChars else []) @
                (if kind AND R_UPPER \<noteq> 0 then upperChars else []) @
                (if kind AND R_LOWER \<noteq> 0 then lowerChars else [])))"

text \<open>Lines 81 to 85: one iteration of the loop, the character stored at \<open>result[i]\<close>.\<close>

definition Bytes_pick :: "draw_env \<Rightarrow> string \<Rightarrow> char result" where
  "Bytes_pick e chars =
     (let len = word_of_nat (length chars) :: int64 in
      bind_r (rand_or_fallback e (sint len) len) (\<lambda>n. go_index chars (word_of_int n)))"

text \<open>
  The loop over \<open>result\<close>: iteration \<open>i\<close> reads the environment \<open>env i\<close>.  The second
  argument counts the iterations left.  Memory is not modelled: \<open>make([]byte, length)\<close>
  is taken to succeed.
\<close>

fun Bytes_loop :: "(nat \<Rightarrow> draw_env) \<Rightarrow> string \<Rightarrow> nat \<Rightarrow> nat \<Rightarrow> string result" where
  "Bytes_loop env chars i 0 = Inr []"
| "Bytes_loop env chars i (Suc k) =
     bind_r (Bytes_pick (env i) chars) (\<lambda>c.
       bind_r (Bytes_loop env chars (Suc i) k) (\<lambda>cs. Inr (c # cs)))"

definition Bytes :: "(nat \<Rightarrow> draw_env) \<Rightarrow> int64 \<Rightarrow> int64 list \<Rightarrow> string result" where
  "Bytes env kind bytesLen =
     bind_r (Bytes_chars (Bytes_kind kind)) (\<lambda>chars.
       Bytes_loop env chars 0 (nat (sint (Bytes_length bytesLen))))"

definition String :: "(nat \<Rightarrow> draw_env) \<Rightarrow> int64 \<Rightarrow> int64 list \<Rightarrow> string result" where
  "String env kind sz = Bytes env kind sz"

section \<open>Int\<close>

text \<open>The function \<open>Int\<close> of the package is \<open>Int_go\<close> here: \<open>Int\<close> is taken in HOL.\<close>

text \<open>
  Lines 96 to 107 (and again 122 to 133): the bounds from the variadic arguments.  With
  more than two arguments the first two count.
\<close>

definition rangeBounds :: "int64 list \<Rightarrow> int64 \<times> int64" where
  "rangeBounds rangeSize =
     (case rangeSize of
        [] \<Rightarrow> (0, 100)
      | [a] \<Rightarrow> (0, a)
      | a # b # _ \<Rightarrow> (if b <s a then (b, a) else (a, b)))"

definition Int_go :: "draw_env \<Rightarrow> int64 list \<Rightarrow> int64 result" where
  "Int_go e rangeSize =
     (case rangeBounds rangeSize of (mn, mx) \<Rightarrow>
        bind_r (rand_Int (int_answer e) (sint (mx - mn + 1))) (\<lambda>r.
          case r of
            None \<Rightarrow> bind_r (go_rem (Int63 (fallback e)) (mx - mn + 1)) (\<lambda>m. Inr (mn + m))
          | Some n \<Rightarrow> Inr (mn + word_of_int n)))"

section \<open>Float64\<close>

text \<open>
  The floating-point operations that \<open>Float64\<close> uses are gathered in a record: the
  conversion \<open>float64(x)\<close> of an integer, the sum, the quotient and the literal \<open>0.0\<close>.
\<close>

record 'f float_ops =
  of_int64 :: "int64 \<Rightarrow> 'f"
  f_add :: "'f \<Rightarrow> 'f \<Rightarrow> 'f"
  f_div :: "'f \<Rightarrow> 'f \<Rightarrow> 'f"
  f_zero :: 'f










text \<open>
  Lines 136 to 145: the decimal part.  \<open>dpmax\<close> is the \<open>big.Int\<close> \<open>10 ^ dpLength\<close>.
  \<open>Int64()\<close> of a non-negative \<open>big.Int\<close> is its value when it fits in an \<open>int64\<close>;
  otherwise the Go library leaves the result undefined, and its implementation keeps the
  low 64 bits, as the model does.
\<close>

definition Float64_dp :: "'f float_ops \<Rightarrow> draw_env \<Rightarrow> int64 \<Rightarrow> 'f result" where
  "Float64_dp ops e dpLength =
     (if 0 <s dpLength then
        (let dpmax = (10 :: int) ^ nat (sint dpLength) in
         bind_r (rand_or_fallback e dpmax (word_of_int dpmax)) (\<lambda>n.
           Inr (f_div ops (of_int64 ops (word_of_int n)) (of_int64 ops (word_of_int dpmax)))))
      else Inr (f_zero ops))"

text \<open>Lines 148 to 151: the integer part, as an \<open>int64\<close>.\<close>

definition Float64_intPart :: "draw_env \<Rightarrow> int64 \<Rightarrow> int64 \<Rightarrow> int64 result" where
  "Float64_intPart e mn mx =
     bind_r (rand_or_fallback e (sint (mx - mn)) (mx - mn)) (\<lambda>n. Inr (word_of_int n))"

text \<open>
  \<open>Float64\<close>: the first environment is read by the draw of the decimal part, the second
  by the draw of the integer part.
\<close>

definition Float64 ::
  "'f float_ops \<Rightarrow> draw_env \<Rightarrow> draw_env \<Rightarrow> int64 \<Rightarrow> int64 list \<Rightarrow> 'f result" where
  "Float64 ops e_dp e_int dpLength rangeSize =
     (case rangeBounds rangeSize of (mn, mx) \<Rightarrow>
        bind_r (Float64_dp ops e_dp dpLength) (\<lambda>dp.
          bind_r (Float64_intPart e_int mn mx) (\<lambda>intPart.
            Inr (f_add ops (f_add ops (of_int64 ops mn) (of_int64 ops intPart)) dp))))"

section \<open>NewID and NewStringID\<close>

text \<open>
  What \<open>NewID\<close> reads: \<open>time.Now().UnixMilli()\<close>, the answer of \<open>rand.Read(buf[:])\<close>, and
  the environment of the fallback \<open>Int63\<close>.
\<close>

record id_env =
  unix_milli :: int64
  id_read :: "array8 option"
  id_fallback :: fallback_env

definition NewID :: "id_env \<Rightarrow> int64" where
  "NewID e =
     (let now = unix_milli e * 1000000 in
      case id_read e of
        None \<Rightarrow> now + rem64 (Int63 (id_fallback e)) 1000000
      | Some buf \<Rightarrow> now + LittleEndian_Uint64 buf mod 1000000)"

text \<open>
  \<open>strconv.FormatInt(i, 16)\<close> of the Go library: the digits of the magnitude, most
  significant first, from \<open>0123456789abcdef\<close>, after a \<open>-\<close> for a negative value.
\<close>

definition hex_digit :: "nat \<Rightarrow> char" where
  "hex_digit d = ''0123456789abcdef'' ! d"

fun hex_digits :: "nat \<Rightarrow> string" where
  "hex_digits u = (if u < 16 then [hex_digit u] else hex_digits (u div 16) @ [hex_digit (u mod 16)])"

declare hex_digits.simps [simp del]

definition FormatInt16 :: "int64 \<Rightarrow> string" where
  "FormatInt16 i =
     (if i <s 0 then CHR ''-'' # hex_digits (nat (- sint i)) else hex_digits (nat (sint i)))"

definition NewStringID :: "id_env \<Rightarrow> string" where
  "NewStringID e = FormatInt16 (NewID e)"

text \<open>
  \<open>strconv.ParseInt(s, 16, 64)\<close> of the Go library, the reader the round trip is stated
  with: an optional sign, then one or more digits of \<open>0-9\<close>, \<open>a-f\<close> or \<open>A-F\<close>; \<open>None\<close>
  for a syntax error or a value outside \<open>int64\<close>.
\<close>

definition hex_value :: "char \<Rightarrow> nat option" where
  "hex_value c =
     (let k = of_char c :: nat in
      if 48 \<le> k \<and> k \<le> 57 then Some (k - 48)
      else if 97 \<le> k \<and> k \<le> 102 then Some (k - 87)
      else if 65 \<le> k \<and> k \<le> 70 then Some (k - 55)
      else None)"

fun parse_hex :: "nat \<Rightarrow> string \<Rightarrow> nat option" where
  "parse_hex acc [] = Some acc"
| "parse_hex acc (c # cs) =
     (case hex_value c of None \<Rightarrow> None | Some d \<Rightarrow> parse_hex (acc * 16 + d) cs)"

definition ParseUint16 :: "string \<Rightarrow> nat option" where
  "ParseUint16 s = (if s = [] then None else parse_hex 0 s)"

definition ParseInt16 :: "string \<Rightarrow> int64 option" where
  "ParseInt16 s =
     (case s of
        [] \<Rightarrow> None
      | c # cs \<Rightarrow>
          (if c = CHR ''-'' then
             (case ParseUint16 cs of
                None \<Rightarrow> None
              | Some u \<Rightarrow> if 2 ^ 63 < u then None else Some (word_of_int (- int u)))
           else
             (case ParseUint16 (if c = CHR ''+'' then cs else s) of
                None \<Rightarrow> None
              | Some u \<Rightarrow> if 2 ^ 63 \<le> u then None else Some (word_of_nat u))))"

section \<open>NewSeriesID\<close>

text \<open>
  The calendar fields of \<open>time.Now()\<close> as the Go library's accessors return them
  (\<open>Year\<close>, \<open>Month\<close>, \<open>Day\<close>, \<open>Hour\<close>, \<open>Minute\<close>, \<open>Second\<close>, \<open>Nanosecond\<close>), and
  \<open>Format\<close> with the layout \<open>20060102150405\<close>: each field in decimal, zero-padded to
  4 digits for the year and 2 for the others, a negative number after a \<open>-\<close>.
\<close>

record go_time =
  Year :: int
  Month :: int
  Day :: int
  Hour :: int
  Minute :: int
  Second :: int
  Nanosecond :: int64









record series_env =
  now :: go_time
  series_draw :: draw_env


section \<open>Conditions on the environment\<close>

text \<open>
  A draw is \<open>draw_ok\<close> when its value is not a negative fallback: the secure source
  answers \<open>rand.Int\<close>, or it answers the \<open>rand.Read\<close> of \<open>Int63\<close>, or the wall clock read
  by \<open>Int63\<close> is not before the Unix epoch.
\<close>

definition draw_ok :: "draw_env \<Rightarrow> bool" where
  "draw_ok e \<longleftrightarrow>
     int_answer e \<noteq> None \<or> read_answer (fallback e) \<noteq> None \<or> 0 \<le>s unix_nano (fallback e)"

section \<open>Bytes: resolved character sets\<close>

text \<open>
  C5: for every selector outside the valid range (\<open>kind <= 0\<close> or \<open>kind > 7\<close>), \<open>Bytes\<close>
  and \<open>String\<close> resolve the character set to the set of all categories: the 62
  characters of the digits, the uppercase letters and the lowercase letters, in this
  order.
\<close>

theorem C5_invalid_selector_resolves_to_all:
  "sint kind \<le> 0 \<or> 7 < sint kind \<Longrightarrow>
     Bytes_chars (Bytes_kind kind) = Inr allChars \<and>
     length allChars = 62 \<and>
     allChars = numChars @ upperChars @ lowerChars \<and>
     Bytes env kind bytesLen = Bytes_loop env allChars 0 (nat (sint (Bytes_length bytesLen))) \<and>
     String env kind bytesLen = Bytes env kind bytesLen"
  by (auto simp: Bytes_def String_def Bytes_chars_def Bytes_kind_def R_All_def go_index_def
      charSets_def bind_r_def word_sless_alt allChars_def numChars_def upperChars_def
      lowerChars_def)

theorem C5_witness:
  "Bytes_chars (Bytes_kind 8) = Inr allChars \<and> Bytes_chars (Bytes_kind (- 3)) = Inr allChars \<and>
   Bytes_chars (Bytes_kind 0) = Inr allChars \<and> length allChars = 62"
  using C5_invalid_selector_resolves_to_all [of 8] C5_invalid_selector_resolves_to_all [of "- 3"]
    C5_invalid_selector_resolves_to_all [of 0]
  by simp

text \<open>
  C6: the selectors 3, 5 and 6 have a \<open>nil\<close> entry in the table, and their resolved
  character set is the concatenation of the base sets whose bits are set, digits first,
  then uppercase letters, then lowercase letters.
\<close>

theorem C6_combined_selectors_concatenate:
  "go_index charSets 3 = Inr None \<and> go_index charSets 5 = Inr None \<and>
   go_index charSets 6 = Inr None \<and>
   Bytes_chars (Bytes_kind 3) = Inr (numChars @ upperChars) \<and>
   Bytes_chars (Bytes_kind 5) = Inr (numChars @ lowerChars) \<and>
   Bytes_chars (Bytes_kind 6) = Inr (upperChars @ lowerChars) \<and>
   Bytes env 3 bytesLen =
     Bytes_loop env (numChars @ upperChars) 0 (nat (sint (Bytes_length bytesLen))) \<and>
   Bytes env 5 bytesLen =
     Bytes_loop env (numChars @ lowerChars) 0 (nat (sint (Bytes_length bytesLen))) \<and>
   Bytes env 6 bytesLen =
     Bytes_loop env (upperChars @ lowerChars) 0 (nat (sint (Bytes_length bytesLen)))"
  by (simp add: Bytes_def Bytes_chars_def Bytes_kind_def R_All_def go_index_def charSets_def
      bind_r_def word_sless_alt R_NUM_def R_UPPER_def R_LOWER_def)

section \<open>Signed 64-bit arithmetic\<close>

lemma sint_of_int64:
  "- 9223372036854775808 \<le> k \<Longrightarrow> k < 9223372036854775808 \<Longrightarrow> sint (word_of_int k :: int64) = k"
  by (simp add: sint_sbintrunc' signed_take_bit_int_eq_self)

lemma sint64_range: "- 9223372036854775808 \<le> sint (x :: int64) \<and> sint x < 9223372036854775808"
  using sint_ge [of x] sint_lt [of x] by simp



lemma rem64_range:
  assumes "0 \<le> sint x" "0 < sint m"
  shows "sint (rem64 x m) = sint x mod sint m" "0 \<le> sint (rem64 x m)" "sint (rem64 x m) < sint m"
proof -
  have eq: "sint x smod sint m = sint x mod sint m"
    using assms by (simp add: smod_mod_positive)
  have lo: "0 \<le> sint x mod sint m" and hi: "sint x mod sint m < sint m"
    using assms by simp_all
  have "sint m < 9223372036854775808" using sint64_range [of m] by simp
  with lo hi show "sint (rem64 x m) = sint x mod sint m"
    by (simp add: rem64_def eq sint_of_int64)
  with lo hi show "0 \<le> sint (rem64 x m)" "sint (rem64 x m) < sint m" by simp_all
qed

lemma go_rem_pos: "0 < sint m \<Longrightarrow> go_rem x m = Inr (rem64 x m)"
  by (auto simp: go_rem_def)

section \<open>Int63: the masked branch\<close>

lemma Int63_mask: "(push_bit 63 1 - 1 :: int64) = mask 63"
  by (simp add: mask_eq_exp_minus_1 push_bit_eq_mult)

lemma mask63_nonneg: "0 \<le> sint (w AND mask 63 :: int64)"
proof -
  have "\<not> bit (w AND mask 63) (LENGTH(64) - Suc 0)"
    by (simp add: bit_and_iff bit_mask_iff)
  then show ?thesis
    unfolding bit_last_iff by simp
qed

lemma uint_and_mask63: "uint (w AND mask 63 :: int64) = uint w mod 2 ^ 63"
proof -
  have "w AND mask 63 = take_bit 63 w"
    by (simp only: take_bit_eq_mask)
  then have "uint (w AND mask 63) = take_bit 63 (uint w)"
    by (simp only: unsigned_take_bit_eq)
  then show ?thesis
    by (simp only: take_bit_eq_mod)
qed

lemma Int63_secure:
  assumes "read_answer f = Some b"
  shows "0 \<le> sint (Int63 f)" "sint (Int63 f) = uint (BigEndian_Uint64 b) mod 2 ^ 63"
proof -
  have v: "Int63 f = BigEndian_Uint64 b AND mask 63"
    using assms unfolding Int63_def Int63_mask by simp
  show nn: "0 \<le> sint (Int63 f)"
    unfolding v by (rule mask63_nonneg)
  have r: "0 \<le> uint (BigEndian_Uint64 b) mod 2 ^ 63" "uint (BigEndian_Uint64 b) mod 2 ^ 63 < 2 ^ 63"
    by simp_all
  have "sint (Int63 f) = signed_take_bit 63 (uint (Int63 f))"
    by (simp add: sint_uint)
  also have "\<dots> = signed_take_bit 63 (uint (BigEndian_Uint64 b) mod 2 ^ 63)"
    unfolding v uint_and_mask63 ..
  also have "\<dots> = uint (BigEndian_Uint64 b) mod 2 ^ 63"
    using r by (intro signed_take_bit_int_eq_self) linarith+
  finally show "sint (Int63 f) = uint (BigEndian_Uint64 b) mod 2 ^ 63" .
qed

lemma Int63_nonneg_iff:
  "0 \<le> sint (Int63 f) \<longleftrightarrow> read_answer f \<noteq> None \<or> 0 \<le>s unix_nano f"
proof (cases "read_answer f")
  case None
  then show ?thesis by (simp add: Int63_def word_sle_eq)
next
  case (Some b)
  then show ?thesis using Int63_secure(1) [of f b] by simp
qed

lemma draw_ok_fallback:
  "draw_ok e \<Longrightarrow> int_answer e = None \<Longrightarrow> 0 \<le> sint (Int63 (fallback e))"
  by (simp add: draw_ok_def Int63_nonneg_iff)

section \<open>The draw with fallback\<close>

lemma rand_Int_pos:
  "0 < mx \<Longrightarrow> rand_Int (Some r) mx = Inr (Some (int r mod mx))"
  "0 < mx \<Longrightarrow> rand_Int None mx = Inr None"
  by (simp_all add: rand_Int_def)

lemma rand_or_fallback_range:
  assumes pos: "0 < mx" and m: "sint m = mx" and ok: "draw_ok e"
  shows "\<exists>n. rand_or_fallback e mx m = Inr n \<and> 0 \<le> n \<and> n < mx"
proof (cases "int_answer e")
  case None
  have nn: "0 \<le> sint (Int63 (fallback e))" using ok None by (rule draw_ok_fallback)
  have p: "0 < sint m" using pos m by simp
  have "rand_or_fallback e mx m = Inr (sint (rem64 (Int63 (fallback e)) m))"
    using None pos p by (simp add: rand_or_fallback_def rand_Int_pos go_rem_pos bind_r_def)
  then show ?thesis using rem64_range(2,3) [OF nn p] m by simp
next
  case (Some r)
  have "rand_or_fallback e mx m = Inr (int r mod mx)"
    using Some pos by (simp add: rand_or_fallback_def rand_Int_pos bind_r_def)
  then show ?thesis using pos by simp
qed

lemma rand_or_fallback_panics:
  "mx \<le> 0 \<Longrightarrow> rand_or_fallback e mx m = Inl RandIntArgNotPositive"
  by (simp add: rand_or_fallback_def rand_Int_def bind_r_def)

section \<open>Int: bounds of the result\<close>









section \<open>Bytes: length and members of the result\<close>

lemma Bytes_kind_cases: "Bytes_kind kind \<in> {1, 2, 3, 4, 5, 6, 7}"
proof (cases "7 <s kind \<or> kind <s 1")
  case True
  then show ?thesis by (simp add: Bytes_kind_def R_All_def)
next
  case False
  then have "1 \<le> sint kind" "sint kind \<le> 7"
    by (simp_all add: word_sless_alt)
  then have "sint kind \<in> {1, 2, 3, 4, 5, 6, 7}" by auto
  moreover have "kind = word_of_int (sint kind)" by simp
  ultimately have "kind \<in> {1, 2, 3, 4, 5, 6, 7}"
    by (metis (no_types, lifting) insert_iff of_int_numeral of_int_1 singletonD empty_iff)
  with False show ?thesis by (simp add: Bytes_kind_def)
qed

lemma Bytes_chars_resolved:
  "\<exists>chars. Bytes_chars (Bytes_kind kind) = Inr chars \<and> 0 < length chars \<and> length chars \<le> 62 \<and>
           set chars \<subseteq> set allChars"
proof -
  have "\<exists>chars. Bytes_chars k = Inr chars \<and> 0 < length chars \<and> length chars \<le> 62 \<and>
           set chars \<subseteq> set allChars"
    if "k \<in> {1, 2, 3, 4, 5, 6, 7}" for k
    using that
    by (auto simp: Bytes_chars_def go_index_def charSets_def bind_r_def R_NUM_def R_UPPER_def
        R_LOWER_def numChars_def upperChars_def lowerChars_def allChars_def)
  then show ?thesis using Bytes_kind_cases by blast
qed

lemma Bytes_pick_member:
  assumes len: "0 < length chars" "length chars \<le> 62"
    and ok: "draw_ok e"
  shows "\<exists>c. Bytes_pick e chars = Inr c \<and> c \<in> set chars"
proof -
  let ?l = "word_of_nat (length chars) :: int64"
  have l: "sint ?l = int (length chars)"
    using len sint_of_int64 [of "int (length chars)"] by simp
  obtain n where n: "rand_or_fallback e (sint ?l) ?l = Inr n" "0 \<le> n" "n < int (length chars)"
    using rand_or_fallback_range [of "sint ?l" ?l e] len ok l by auto
  have "sint (word_of_int n :: int64) = n"
    using n len by (intro sint_of_int64) linarith+
  with n have "go_index chars (word_of_int n) = Inr (chars ! nat n)" "chars ! nat n \<in> set chars"
    by (simp_all add: go_index_def)
  with n show ?thesis by (simp add: Bytes_pick_def bind_r_def Let_def)
qed

lemma Bytes_loop_members:
  assumes len: "0 < length chars" "length chars \<le> 62"
    and ok: "\<And>j. draw_ok (env j)"
  shows "\<exists>bs. Bytes_loop env chars i k = Inr bs \<and> length bs = k \<and> set bs \<subseteq> set chars"
proof (induction k arbitrary: i)
  case 0
  show ?case by simp
next
  case (Suc k)
  obtain c where c: "Bytes_pick (env i) chars = Inr c" "c \<in> set chars"
    using Bytes_pick_member [OF len ok] by blast
  obtain bs where bs: "Bytes_loop env chars (Suc i) k = Inr bs" "length bs = k" "set bs \<subseteq> set chars"
    using Suc.IH by blast
  from c bs show ?case by (simp add: bind_r_def)
qed

lemma Bytes_length_cases:
  "Bytes_length [] = 6"
  "0 < sint n \<Longrightarrow> Bytes_length (n # rest) = n"
  "sint n \<le> 0 \<Longrightarrow> Bytes_length (n # rest) = 6"
  by (simp_all add: Bytes_length_def word_sless_alt)

text \<open>
  For every selector \<open>s\<close>, and whenever no draw is a negative fallback, \<open>Bytes\<close> and
  \<open>String\<close> return a string whose characters all belong to the character set resolved
  from \<open>s\<close>; it has exactly \<open>n\<close> characters when a positive length \<open>n\<close> is supplied, and 6
  when the length is omitted or not positive.  The allocation of the result is taken to
  succeed.
\<close>

lemma Bytes_length_and_members:
  assumes "\<forall>i. draw_ok (env i)"
  shows "\<exists>bs chars.
           Bytes env s bytesLen = Inr bs \<and> String env s bytesLen = Inr bs \<and>
           Bytes_chars (Bytes_kind s) = Inr chars \<and> set bs \<subseteq> set chars \<and>
           length bs =
             (case bytesLen of [] \<Rightarrow> 6 | n # _ \<Rightarrow> if 0 < sint n then nat (sint n) else 6)"
proof -
  obtain chars where chars: "Bytes_chars (Bytes_kind s) = Inr chars" "0 < length chars"
      "length chars \<le> 62"
    using Bytes_chars_resolved by blast
  let ?k = "nat (sint (Bytes_length bytesLen))"
  obtain bs where bs: "Bytes_loop env chars 0 ?k = Inr bs" "length bs = ?k" "set bs \<subseteq> set chars"
    using Bytes_loop_members [OF chars(2,3), of env 0 ?k] assms by blast
  have "?k = (case bytesLen of [] \<Rightarrow> 6 | n # _ \<Rightarrow> if 0 < sint n then nat (sint n) else 6)"
    by (cases bytesLen) (simp_all add: Bytes_length_def word_sless_alt)
  with chars bs show ?thesis
    by (simp add: Bytes_def String_def bind_r_def)
qed

text \<open>
  C4: the claim says that \<open>String(s, n)\<close> and \<open>Bytes(s, n)\<close> return \<open>n\<close> characters of the
  resolved set in every case.  In the code, when the secure source fails and the clock
  reads one nanosecond before the epoch, the fallback index \<open>Int63() % 10\<close> is \<open>-1\<close> and
  \<open>Bytes(R_NUM, 1)\<close> panics on \<open>chars[n.Int64()]\<close>.
\<close>

theorem C4_Bytes_panics_on_negative_fallback:
  "Bytes (\<lambda>i. \<lparr>int_answer = None, fallback = \<lparr>read_answer = None, unix_nano = - 1\<rparr>\<rparr>) 1 [1] =
     Inl IndexOutOfRange \<and>
   String (\<lambda>i. \<lparr>int_answer = None, fallback = \<lparr>read_answer = None, unix_nano = - 1\<rparr>\<rparr>) 1 [1] =
     Inl IndexOutOfRange"
  by (simp add: String_def Bytes_def Bytes_kind_def Bytes_chars_def Bytes_length_def
      Bytes_pick_def rand_or_fallback_def go_index_def charSets_def numChars_def rand_Int_def
      go_rem_def rem64_def bind_r_def Int63_def word_sless_alt smod_int_alt_def)

section \<open>binary64: rounding to the nearest value\<close>



























section \<open>Float64: the parts of the result\<close>


lemma Float64_dp_nonpos:
  "sint d \<le> 0 \<Longrightarrow> Float64_dp ops e d = Inr (f_zero ops)"
  by (simp add: Float64_dp_def word_sless_alt)
















section \<open>Panics of Int and Float64\<close>

text \<open>
  C1: the claim says that no public operation panics, in particular \<open>Int\<close> with one
  negative argument and \<open>Float64\<close> with equal bounds.  In the code, \<open>Int(-5)\<close> passes
  \<open>max - min + 1 = -4\<close> to \<open>rand.Int\<close> and \<open>Float64(2, 5, 5)\<close> passes \<open>max - min = 0\<close>;
  \<open>rand.Int\<close> panics for both, whatever the environment.
\<close>

theorem C1_Int_and_Float64_panic:
  "Int_go e [- 5] = Inl RandIntArgNotPositive \<and>
   Int_go e [- 1] = Inl RandIntArgNotPositive \<and>
   Float64 ops e_dp e_int 2 [5, 5] = Inl RandIntArgNotPositive \<and>
   Float64 ops e_dp e_int 0 [a, a] = Inl RandIntArgNotPositive"
proof -
  have dp: "\<exists>v. Float64_dp ops e_dp 2 = Inr v"
    by (cases "int_answer e_dp")
       (simp_all add: Float64_dp_def rand_or_fallback_def rand_Int_def go_rem_def bind_r_def
         word_sless_alt)
  then show ?thesis
    by (auto simp: Int_go_def Float64_def Float64_dp_nonpos Float64_intPart_def rangeBounds_def
        rand_or_fallback_panics rand_Int_def bind_r_def)
qed

section \<open>Int63: range of the result\<close>

text \<open>
  Whenever its secure read succeeds, or the wall clock is not before the Unix epoch,
  \<open>Int63\<close> returns a non-negative value below \<open>2^63\<close> (on a successful read, the
  big-endian value of the 8 bytes reduced to its low 63 bits); then every fallback
  expression \<open>Int63() % m\<close> with \<open>m > 0\<close> lies in \<open>[0, m)\<close>, and the fallback draw of
  \<open>Bytes\<close> indexes the resolved character set in bounds.
\<close>

lemma Int63_nonnegative:
  assumes "read_answer f \<noteq> None \<or> 0 \<le>s unix_nano f"
  shows "0 \<le> sint (Int63 f) \<and> sint (Int63 f) < 2 ^ 63 \<and>
         (\<forall>b. read_answer f = Some b \<longrightarrow>
              sint (Int63 f) = uint (BigEndian_Uint64 b) mod 2 ^ 63) \<and>
         (read_answer f = None \<longrightarrow> Int63 f = unix_nano f) \<and>
         (\<forall>m. 0 < sint m \<longrightarrow>
              go_rem (Int63 f) m = Inr (rem64 (Int63 f) m) \<and>
              sint (rem64 (Int63 f) m) = sint (Int63 f) mod sint m \<and>
              0 \<le> sint (rem64 (Int63 f) m) \<and> sint (rem64 (Int63 f) m) < sint m) \<and>
         (\<forall>kind chars. Bytes_chars (Bytes_kind kind) = Inr chars \<longrightarrow>
              (\<exists>c. Bytes_pick \<lparr>int_answer = None, fallback = f\<rparr> chars = Inr c \<and> c \<in> set chars))"
proof -
  have nn: "0 \<le> sint (Int63 f)"
    using assms by (simp add: Int63_nonneg_iff)
  have lt: "sint (Int63 f) < 2 ^ 63"
    using sint64_range [of "Int63 f"] by simp
  have rd: "\<forall>b. read_answer f = Some b \<longrightarrow> sint (Int63 f) = uint (BigEndian_Uint64 b) mod 2 ^ 63"
    using Int63_secure(2) by blast
  have cl: "read_answer f = None \<longrightarrow> Int63 f = unix_nano f"
    by (simp add: Int63_def)
  have md: "\<forall>m. 0 < sint m \<longrightarrow>
              go_rem (Int63 f) m = Inr (rem64 (Int63 f) m) \<and>
              sint (rem64 (Int63 f) m) = sint (Int63 f) mod sint m \<and>
              0 \<le> sint (rem64 (Int63 f) m) \<and> sint (rem64 (Int63 f) m) < sint m"
    using rem64_range [OF nn] go_rem_pos by blast
  have "draw_ok \<lparr>int_answer = None, fallback = f\<rparr>"
    using assms by (simp add: draw_ok_def)
  then have bp: "\<forall>kind chars. Bytes_chars (Bytes_kind kind) = Inr chars \<longrightarrow>
              (\<exists>c. Bytes_pick \<lparr>int_answer = None, fallback = f\<rparr> chars = Inr c \<and> c \<in> set chars)"
    using Bytes_chars_resolved Bytes_pick_member by (metis sum.inject(2))
  from nn lt rd cl md bp show ?thesis by blast
qed

text \<open>
  C10: the claim says that \<open>Int63\<close> always returns a non-negative value, so that every
  fallback remainder lies in \<open>[0, m)\<close> and the index of \<open>Bytes\<close> is in bounds.  In the
  code the branch taken when \<open>rand.Read\<close> fails returns \<open>time.Now().UnixNano()\<close> as it
  is (the other branch masks the sign bit): for a clock one nanosecond before the epoch
  \<open>Int63\<close> returns \<open>-1\<close>, \<open>Int63() % 10\<close> is \<open>-1\<close>, and the fallback index of \<open>Bytes\<close> is
  out of range.
\<close>

theorem C10_Int63_negative_before_epoch:
  "sint (Int63 \<lparr>read_answer = None, unix_nano = - 1\<rparr>) = - 1 \<and>
   go_rem (Int63 \<lparr>read_answer = None, unix_nano = - 1\<rparr>) 10 = Inr (- 1) \<and>
   Bytes_pick \<lparr>int_answer = None, fallback = \<lparr>read_answer = None, unix_nano = - 1\<rparr>\<rparr> numChars =
     Inl IndexOutOfRange"
  by (simp add: Int63_def go_rem_def rem64_def Bytes_pick_def rand_or_fallback_def rand_Int_def
      go_index_def numChars_def bind_r_def smod_int_alt_def)

section \<open>NewID: the random component\<close>

lemma or_push8: "0 \<le> a \<Longrightarrow> a < 256 \<Longrightarrow> a OR push_bit 8 k = a + 256 * (k :: int)"
proof -
  assume a: "0 \<le> a" "a < 256"
  have "take_bit 8 a = a" using a by (simp add: take_bit_int_eq_self)
  then have "a OR push_bit 8 k = concat_bit 8 a k"
    by (simp add: concat_bit_def)
  then show ?thesis
    using \<open>take_bit 8 a = a\<close> by (simp add: concat_bit_eq push_bit_eq_mult)
qed

lemma byte_range: "0 \<le> uint (b :: byte) \<and> uint b < 256"
  using uint_bounded [of b] by simp

lemma nest8:
  "(a0 :: int) OR push_bit 8 a1 OR push_bit 16 a2 OR push_bit 24 a3 OR push_bit 32 a4 OR
     push_bit 40 a5 OR push_bit 48 a6 OR push_bit 56 a7 =
   a0 OR push_bit 8 (a1 OR push_bit 8 (a2 OR push_bit 8 (a3 OR push_bit 8 (a4 OR
     push_bit 8 (a5 OR push_bit 8 (a6 OR push_bit 8 a7))))))"
  by (simp add: push_bit_or push_bit_push_bit)

lemma bytes_sum:
  "uint (b0 :: byte) OR push_bit 8 (uint (b1 :: byte)) OR push_bit 16 (uint (b2 :: byte)) OR
     push_bit 24 (uint (b3 :: byte)) OR push_bit 32 (uint (b4 :: byte)) OR
     push_bit 40 (uint (b5 :: byte)) OR push_bit 48 (uint (b6 :: byte)) OR
     push_bit 56 (uint (b7 :: byte)) =
   uint b0 + 256 * (uint b1 + 256 * (uint b2 + 256 * (uint b3 + 256 * (uint b4 +
     256 * (uint b5 + 256 * (uint b6 + 256 * uint b7))))))"
  unfolding nest8 using byte_range by (simp add: or_push8 flip: push_bit_eq_mult)

lemma uint_push_byte:
  "n \<le> 56 \<Longrightarrow> uint (push_bit n (ucast (b :: byte)) :: uint64) = push_bit n (uint b)"
proof -
  assume n: "n \<le> 56"
  have "uint b < 2 ^ 8" using uint_bounded [of b] by simp
  then have "push_bit n (uint b) < push_bit n (2 ^ 8)"
    by (simp add: push_bit_eq_mult)
  also have "\<dots> = 2 ^ (n + 8)" by (simp add: push_bit_eq_mult power_add)
  also have "\<dots> \<le> 2 ^ 64" using n by (intro power_increasing) simp_all
  finally have "push_bit n (uint b) < 2 ^ 64" .
  moreover have "0 \<le> push_bit n (uint b)" by simp
  ultimately have "take_bit 64 (push_bit n (uint b)) = push_bit n (uint b)"
    by (simp add: take_bit_int_eq_self)
  moreover have "uint (ucast b :: uint64) = uint b"
    by (simp add: uint_up_ucast is_up)
  ultimately show ?thesis
    by (simp add: uint_word_of_int unsigned_push_bit_eq)
qed


lemma BigEndian_Uint64_value:
  "uint (BigEndian_Uint64 (Array8 b0 b1 b2 b3 b4 b5 b6 b7)) =
     uint b7 + 256 * (uint b6 + 256 * (uint b5 + 256 * (uint b4 + 256 * (uint b3 +
       256 * (uint b2 + 256 * (uint b1 + 256 * uint b0))))))"
proof -
  have "uint (BigEndian_Uint64 (Array8 b0 b1 b2 b3 b4 b5 b6 b7)) =
    uint b7 OR push_bit 8 (uint b6) OR push_bit 16 (uint b5) OR
     push_bit 24 (uint b4) OR push_bit 32 (uint b3) OR
     push_bit 40 (uint b2) OR push_bit 48 (uint b1) OR
     push_bit 56 (uint b0)"
    using uint_push_byte [of 0 b7]
    by (simp only: BigEndian_Uint64.simps uint_or uint_push_byte push_bit_0_id) simp
  then show ?thesis by (simp only: bytes_sum)
qed








section \<open>NewStringID: round trip\<close>

lemma hex_digit_facts:
  assumes "d < 16"
  shows "hex_value (hex_digit d) = Some d" "hex_digit d \<in> set ''0123456789abcdef''"
    "hex_digit d \<noteq> CHR ''-''" "hex_digit d \<noteq> CHR ''+''" "hex_digit d = CHR ''0'' \<longleftrightarrow> d = 0"
proof -
  have "d \<in> {0, 1, 2, 3, 4, 5, 6, 7, 8, 9, 10, 11, 12, 13, 14, 15}"
    using assms by (simp only: insert_iff empty_iff) arith
  then show "hex_value (hex_digit d) = Some d" "hex_digit d \<in> set ''0123456789abcdef''"
    "hex_digit d \<noteq> CHR ''-''" "hex_digit d \<noteq> CHR ''+''" "hex_digit d = CHR ''0'' \<longleftrightarrow> d = 0"
    by (auto simp: hex_digit_def hex_value_def)
qed

lemma hex_digits_nonempty: "hex_digits n \<noteq> []"
  by (subst hex_digits.simps) simp

lemma hd_hex_digits:
  "hd (hex_digits n) \<in> set ''0123456789abcdef'' \<and> hd (hex_digits n) \<noteq> CHR ''-'' \<and>
   hd (hex_digits n) \<noteq> CHR ''+'' \<and> (hd (hex_digits n) = CHR ''0'' \<longrightarrow> n = 0)"
proof (induction n rule: hex_digits.induct)
  case (1 u)
  show ?case
  proof (cases "u < 16")
    case True
    then show ?thesis
      using hex_digit_facts [OF True] by (subst (1 2 3 4) hex_digits.simps) simp
  next
    case False
    then have "hd (hex_digits u) = hd (hex_digits (u div 16))"
      by (subst hex_digits.simps) (simp add: hex_digits_nonempty)
    moreover have "u div 16 \<noteq> 0" using False by simp
    ultimately show ?thesis using 1 [OF False] by auto
  qed
qed

lemma set_hex_digits: "set (hex_digits n) \<subseteq> set ''0123456789abcdef''"
proof (induction n rule: hex_digits.induct)
  case (1 u)
  show ?case
  proof (cases "u < 16")
    case True
    then show ?thesis
      using hex_digit_facts(2) [OF True] by (subst hex_digits.simps) simp
  next
    case False
    have "hex_digit (u mod 16) \<in> set ''0123456789abcdef''"
      by (rule hex_digit_facts(2)) simp
    then show ?thesis
      using 1 [OF False] False by (subst hex_digits.simps) simp
  qed
qed

lemma parse_hex_snoc:
  "parse_hex acc (xs @ [c]) =
     (case parse_hex acc xs of
        None \<Rightarrow> None
      | Some a \<Rightarrow> (case hex_value c of None \<Rightarrow> None | Some d \<Rightarrow> Some (a * 16 + d)))"
  by (induction xs arbitrary: acc) (simp_all split: option.splits)

lemma parse_hex_digits: "parse_hex 0 (hex_digits n) = Some n"
proof (induction n rule: hex_digits.induct)
  case (1 u)
  show ?case
  proof (cases "u < 16")
    case True
    then show ?thesis
      using hex_digit_facts(1) [OF True] by (subst hex_digits.simps) simp
  next
    case False
    have "hex_value (hex_digit (u mod 16)) = Some (u mod 16)"
      by (rule hex_digit_facts(1)) simp
    then show ?thesis
      using 1 [OF False] False by (subst hex_digits.simps) (simp add: parse_hex_snoc)
  qed
qed

lemma ParseUint16_digits: "ParseUint16 (hex_digits n) = Some n"
  by (simp add: ParseUint16_def hex_digits_nonempty parse_hex_digits)

lemma ParseInt16_FormatInt16: "ParseInt16 (FormatInt16 x) = Some x"
proof (cases "x <s 0")
  case True
  then have neg: "sint x < 0" by (simp add: word_sless_alt)
  let ?u = "nat (- sint x)"
  have u: "int ?u = - sint x" using neg by simp
  have "\<not> 2 ^ 63 < ?u"
    using sint64_range [of x] neg by (simp add: nat_less_iff)
  moreover have "(word_of_int (- int ?u) :: int64) = x"
    unfolding u by simp
  ultimately show ?thesis
    using True by (simp add: FormatInt16_def ParseInt16_def ParseUint16_digits)
next
  case False
  then have nn: "0 \<le> sint x" by (simp add: word_sless_alt)
  let ?u = "nat (sint x)"
  obtain c cs where s: "hex_digits ?u = c # cs"
    using hex_digits_nonempty [of ?u] by (cases "hex_digits ?u") auto
  have c: "c \<noteq> CHR ''-''" "c \<noteq> CHR ''+''"
    using hd_hex_digits [of ?u] s by simp_all
  have "\<not> 2 ^ 63 \<le> ?u"
    using sint64_range [of x] nn by (simp add: nat_le_iff)
  moreover have "(word_of_nat ?u :: int64) = x"
    using nn by simp
  moreover have "ParseUint16 (c # cs) = Some ?u"
    using ParseUint16_digits [of ?u] s by simp
  ultimately show ?thesis
    using False c s by (simp add: FormatInt16_def ParseInt16_def)
qed

text \<open>
  C8: \<open>NewStringID\<close> renders the numeric ID \<open>NewID\<close> in base 16: the digits of its
  magnitude, from \<open>0123456789abcdef\<close>, with no leading zero (the value 0 is the single
  digit \<open>0\<close>) and no prefix, after a minus sign when the ID is negative.  Parsing the
  string as a base-16 \<open>int64\<close> gives back the ID, for every value of the ID.
\<close>

theorem C8_NewStringID_round_trip:
  "NewStringID e = FormatInt16 (NewID e) \<and>
   ParseInt16 (NewStringID e) = Some (NewID e) \<and>
   ParseInt16 (FormatInt16 x) = Some x \<and>
   FormatInt16 x = (if x <s 0 then ''-'' else []) @ hex_digits (nat \<bar>sint x\<bar>) \<and>
   hex_digits (nat \<bar>sint x\<bar>) \<noteq> [] \<and>
   set (hex_digits (nat \<bar>sint x\<bar>)) \<subseteq> set ''0123456789abcdef'' \<and>
   (hd (hex_digits (nat \<bar>sint x\<bar>)) = CHR ''0'' \<longrightarrow> x = 0 \<and> FormatInt16 x = ''0'')"
proof -
  have f: "FormatInt16 x = (if x <s 0 then ''-'' else []) @ hex_digits (nat \<bar>sint x\<bar>)"
    by (simp add: FormatInt16_def word_sless_alt abs_if)
  have z: "hd (hex_digits (nat \<bar>sint x\<bar>)) = CHR ''0'' \<longrightarrow> x = 0 \<and> FormatInt16 x = ''0''"
  proof
    assume "hd (hex_digits (nat \<bar>sint x\<bar>)) = CHR ''0''"
    then have "nat \<bar>sint x\<bar> = 0" using hd_hex_digits by blast
    then have "sint x = 0" by simp
    then have "(word_of_int (sint x) :: int64) = word_of_int 0" by simp
    then have "x = 0" by simp
    moreover have "FormatInt16 0 = ''0''"
      by (simp add: FormatInt16_def hex_digits.simps hex_digit_def)
    ultimately show "x = 0 \<and> FormatInt16 x = ''0''" by simp
  qed
  show ?thesis
  proof (intro conjI)
    show "NewStringID e = FormatInt16 (NewID e)"
      by (simp add: NewStringID_def)
    show "ParseInt16 (NewStringID e) = Some (NewID e)"
      unfolding NewStringID_def by (rule ParseInt16_FormatInt16)
    show "ParseInt16 (FormatInt16 x) = Some x"
      by (rule ParseInt16_FormatInt16)
    show "FormatInt16 x = (if x <s 0 then ''-'' else []) @ hex_digits (nat \<bar>sint x\<bar>)"
      by (rule f)
    show "hex_digits (nat \<bar>sint x\<bar>) \<noteq> []"
      by (rule hex_digits_nonempty)
    show "set (hex_digits (nat \<bar>sint x\<bar>)) \<subseteq> set ''0123456789abcdef''"
      by (rule set_hex_digits)
    show "hd (hex_digits (nat \<bar>sint x\<bar>)) = CHR ''0'' \<longrightarrow> x = 0 \<and> FormatInt16 x = ''0''"
      by (rule z)
  qed
qed

theorem C8_witness:
  "NewStringID \<lparr>unix_milli = 1700000000000, id_read = Some (Array8 1 2 3 4 5 6 7 8),
          id_fallback = \<lparr>read_answer = None, unix_nano = 0\<rparr>\<rparr> = ''17979cfe362eb001'' \<and>
   ParseInt16 (NewStringID \<lparr>unix_milli = 1700000000000, id_read = Some (Array8 1 2 3 4 5 6 7 8),
          id_fallback = \<lparr>read_answer = None, unix_nano = 0\<rparr>\<rparr>) =
     Some (NewID \<lparr>unix_milli = 1700000000000, id_read = Some (Array8 1 2 3 4 5 6 7 8),
          id_fallback = \<lparr>read_answer = None, unix_nano = 0\<rparr>\<rparr>) \<and>
   NewID \<lparr>unix_milli = 1700000000000, id_read = Some (Array8 1 2 3 4 5 6 7 8),
          id_fallback = \<lparr>read_answer = None, unix_nano = 0\<rparr>\<rparr> = 1700000000000307201"
proof -
  let ?e = "\<lparr>unix_milli = 1700000000000, id_read = Some (Array8 1 2 3 4 5 6 7 8),
          id_fallback = \<lparr>read_answer = None, unix_nano = 0\<rparr>\<rparr>"
  have id: "NewID ?e = 1700000000000307201"
    by (simp add: NewID_def)
  have s: "NewStringID ?e = ''17979cfe362eb001''"
    by (simp add: NewStringID_def id FormatInt16_def hex_digits.simps hex_digit_def word_sless_alt)
  have p: "ParseInt16 (NewStringID ?e) = Some (NewID ?e)"
    using C8_NewStringID_round_trip [of ?e 0] by blast
  from s p id show ?thesis by blast
qed

section \<open>NewSeriesID: the 26 characters\<close>



























end
